theory Spec2Isabelle
  imports Main "HOL-Library.AList" "HOL-Library.Multiset"
begin

section \<open>Values, errors and dictionaries\<close>

text \<open>
  The module \<^verbatim>\<open>PyGeoStudio/Analysis.py\<close> keeps every property of an entity in the
  dictionary \<^verbatim>\<open>self.data\<close>. A Python dictionary keeps its keys in insertion order and
  assigning to a key that is present keeps the key's position, which is what
  \<^const>\<open>AList.update\<close> does on an association list; \<^const>\<open>map_of\<close> is the lookup.

  The values the two classes of the module store are text (\<^verbatim>\<open>prop.text\<close>, which is
  \<^verbatim>\<open>None\<close> for an element without text), numbers given by the caller, and the list of
  timestep records, each record being a dictionary from attribute names to text. The
  type of numbers is a parameter \<open>'n\<close>: the code only subtracts and orders them.
\<close>

type_synonym attrs = "(string \<times> string) list"

datatype 'n pyval =
    PyNone
  | PyStr string
  | PyNum 'n
  | PyList "attrs list"

datatype pyerr =
    ValueError string
  | KeyError string
  | IndexError
  | TypeError
  | AttributeError

type_synonym 'n store = "(string \<times> 'n pyval) list"

text \<open>
  An operation that mutates \<^verbatim>\<open>self.data\<close> and may raise returns the outcome together
  with the dictionary as the operation left it: \<open>Inl e\<close> is the exception \<open>e\<close>, and the
  second component holds every assignment made before it was raised.
\<close>

type_synonym 'n outcome = "(pyerr + unit) \<times> 'n store"

subsection \<open>Decimal text of a Python int\<close>

definition digit_char :: "nat \<Rightarrow> char" where
  "digit_char d = char_of (48 + d)"

fun str_nat :: "nat \<Rightarrow> string" where
  "str_nat n = (if n < 10 then [digit_char n] else str_nat (n div 10) @ [digit_char (n mod 10)])"

declare str_nat.simps [simp del]

definition str_int :: "int \<Rightarrow> string" where
  "str_int i = (if i < 0 then CHR ''-'' # str_nat (nat (- i)) else str_nat (nat i))"

section \<open>TimeIncrements\<close>

subsection \<open>setTimeSteps\<close>

text \<open>
  \<^verbatim>\<open>np.array(xs)[indices]\<close>: the elements of \<open>xs\<close> at the given positions; an index
  past the end raises IndexError.
\<close>

definition take_indices :: "'a list \<Rightarrow> nat list \<Rightarrow> pyerr + 'a list" where
  "take_indices xs indices =
     (if list_all (\<lambda>i. i < length xs) indices then Inr (map (\<lambda>i. xs ! i) indices)
      else Inl IndexError)"

text \<open>\<^verbatim>\<open>self.data.get("Start", 0)\<close>\<close>

definition get_start :: "('n::zero) store \<Rightarrow> 'n pyval" where
  "get_start data = (case map_of data ''Start'' of None \<Rightarrow> PyNum 0 | Some v \<Rightarrow> v)"

text \<open>
  \<^verbatim>\<open>timesteps_[0] - start\<close>: a number minus the stored start. Text and \<^verbatim>\<open>None\<close> have no
  subtraction with a number (TypeError). The schema declares \<^verbatim>\<open>Start\<close> a scalar; a record
  list stored under it is treated as the same failure.
\<close>

fun py_sub :: "('n::minus) \<Rightarrow> 'n pyval \<Rightarrow> pyerr + 'n" where
  "py_sub t (PyNum s) = Inr (t - s)"
| "py_sub t _ = Inl TypeError"

text \<open>
  The dictionary \<^verbatim>\<open>temp\<close> of one timestep: \<^verbatim>\<open>Step\<close>, \<^verbatim>\<open>ElapsedTime\<close>, and \<^verbatim>\<open>Save\<close> only
  when the flag is true. \<open>pystr\<close> is Python's \<^verbatim>\<open>str\<close> on the number type.
\<close>

definition mk_step :: "('n \<Rightarrow> string) \<Rightarrow> 'n \<Rightarrow> 'n \<Rightarrow> bool \<Rightarrow> attrs" where
  "mk_step pystr step elapsed sv =
     [(''Step'', pystr step), (''ElapsedTime'', pystr elapsed)] @
     (if sv then [(''Save'', ''true'')] else [])"

text \<open>
  The loop \<^verbatim>\<open>for i in range(1, len(timesteps))\<close>, over the list of its indices. Reading
  \<^verbatim>\<open>timesteps_[i]\<close> or \<^verbatim>\<open>saved_[i]\<close> past the end raises IndexError.
\<close>

fun steps_loop ::
  "('n::minus \<Rightarrow> string) \<Rightarrow> 'n list \<Rightarrow> bool list \<Rightarrow> nat list \<Rightarrow> attrs list \<Rightarrow> pyerr + attrs list"
where
  "steps_loop pystr ts sv [] res = Inr res"
| "steps_loop pystr ts sv (i # is) res =
     (if i < length ts \<and> i < length sv
      then steps_loop pystr ts sv is
             (res @ [mk_step pystr (ts ! i - ts ! (i - 1)) (ts ! i) (sv ! i)])
      else Inl IndexError)"

text \<open>
  \<open>argsort\<close> is \<^verbatim>\<open>np.argsort\<close>: it returns the positions of its argument in ascending
  order of the values.
\<close>

definition setTimeSteps ::
  "('n list \<Rightarrow> nat list) \<Rightarrow> ('n \<Rightarrow> string) \<Rightarrow> ('n::{minus,zero}) list \<Rightarrow> bool list \<Rightarrow>
   'n store \<Rightarrow> 'n outcome"
where
  "setTimeSteps argsort pystr timesteps saved data =
     (if length timesteps \<noteq> length saved
      then (Inl (ValueError ''timestep and saved parameter must be of the same size''), data)
      else
        let indices = argsort timesteps in
        case take_indices timesteps indices of
          Inl e \<Rightarrow> (Inl e, data)
        | Inr timesteps' \<Rightarrow>
        (case take_indices saved indices of
          Inl e \<Rightarrow> (Inl e, data)
        | Inr saved' \<Rightarrow>
        (case timesteps' of
          [] \<Rightarrow> (Inl IndexError, data)
        | t0 # _ \<Rightarrow>
        (case py_sub t0 (get_start data) of
          Inl e \<Rightarrow> (Inl e, data)
        | Inr step0 \<Rightarrow>
        (case saved' of
          [] \<Rightarrow> (Inl IndexError, data)
        | s0 # _ \<Rightarrow>
        (case steps_loop pystr timesteps' saved' [1..<length timesteps]
                [mk_step pystr step0 t0 s0] of
          Inl e \<Rightarrow> (Inl e, data)
        | Inr res \<Rightarrow>
            (Inr (),
             AList.update ''TimeSteps'' (PyList res)
               (AList.update ''IncrementCount'' (PyStr (str_nat (length timesteps))) data))))))))"

subsection \<open>getSavedTimeStep and getTimeStep\<close>

text \<open>
  \<open>pyfloat\<close> is Python's \<^verbatim>\<open>float\<close> on text. A list comprehension stops at the first
  exception. Indexing a record with a key it lacks raises KeyError; a text is true
  when it is not empty.
\<close>

fun saved_times :: "(string \<Rightarrow> pyerr + 'f) \<Rightarrow> attrs list \<Rightarrow> pyerr + 'f list" where
  "saved_times pyfloat [] = Inr []"
| "saved_times pyfloat (x # xs) =
     (case map_of x ''Save'' of
        None \<Rightarrow> Inl (KeyError ''Save'')
      | Some sv \<Rightarrow>
          if sv \<noteq> [] then
            (case map_of x ''ElapsedTime'' of
               None \<Rightarrow> Inl (KeyError ''ElapsedTime'')
             | Some e \<Rightarrow>
                 (case pyfloat e of
                    Inl err \<Rightarrow> Inl err
                  | Inr v \<Rightarrow>
                      (case saved_times pyfloat xs of
                         Inl err \<Rightarrow> Inl err
                       | Inr vs \<Rightarrow> Inr (v # vs))))
          else saved_times pyfloat xs)"

fun all_times :: "(string \<Rightarrow> pyerr + 'f) \<Rightarrow> attrs list \<Rightarrow> pyerr + 'f list" where
  "all_times pyfloat [] = Inr []"
| "all_times pyfloat (x # xs) =
     (case map_of x ''ElapsedTime'' of
        None \<Rightarrow> Inl (KeyError ''ElapsedTime'')
      | Some e \<Rightarrow>
          (case pyfloat e of
             Inl err \<Rightarrow> Inl err
           | Inr v \<Rightarrow>
               (case all_times pyfloat xs of
                  Inl err \<Rightarrow> Inl err
                | Inr vs \<Rightarrow> Inr (v # vs))))"

text \<open>
  \<^verbatim>\<open>self.data["TimeSteps"]\<close> raises KeyError when the key is absent. Iterating over
  \<^verbatim>\<open>None\<close> or a number raises TypeError, and so does indexing a character of a
  non-empty text with a key; the empty text has nothing to iterate over.
\<close>

definition iter_TimeSteps :: "'n store \<Rightarrow> pyerr + attrs list" where
  "iter_TimeSteps data =
     (case map_of data ''TimeSteps'' of
        None \<Rightarrow> Inl (KeyError ''TimeSteps'')
      | Some (PyList ts) \<Rightarrow> Inr ts
      | Some (PyStr s) \<Rightarrow> (if s = [] then Inr [] else Inl TypeError)
      | Some _ \<Rightarrow> Inl TypeError)"

definition getSavedTimeStep :: "(string \<Rightarrow> pyerr + 'f) \<Rightarrow> 'n store \<Rightarrow> pyerr + 'f list" where
  "getSavedTimeStep pyfloat data =
     (case iter_TimeSteps data of Inl e \<Rightarrow> Inl e | Inr ts \<Rightarrow> saved_times pyfloat ts)"

definition getTimeStep :: "(string \<Rightarrow> pyerr + 'f) \<Rightarrow> 'n store \<Rightarrow> pyerr + 'f list" where
  "getTimeStep pyfloat data =
     (case iter_TimeSteps data of Inl e \<Rightarrow> Inl e | Inr ts \<Rightarrow> all_times pyfloat ts)"

subsection \<open>The document tree\<close>

text \<open>
  An element of \<^verbatim>\<open>xml.etree.ElementTree\<close>: tag, text, attribute dictionary, children.
  The text of a parsed element is a text or \<^verbatim>\<open>None\<close>; \<^verbatim>\<open>__write__\<close> assigns whatever the
  dictionary holds. \<^verbatim>\<open>ET.SubElement(parent, tag)\<close> appends a new last child.
\<close>

datatype 'n element =
  Element (etag: string) (etext: "'n pyval") (eattrib: attrs) (echildren: "'n element list")

definition SubElement :: "'n element \<Rightarrow> 'n element \<Rightarrow> 'n element" where
  "SubElement parent sub =
     Element (etag parent) (etext parent) (eattrib parent) (echildren parent @ [sub])"

subsection \<open>read\<close>

text \<open>
  The inner loop \<^verbatim>\<open>self.data["TimeSteps"].append(dict(time.attrib))\<close>, once per child of
  the \<^verbatim>\<open>TimeSteps\<close> element. Only a list has \<^verbatim>\<open>append\<close>.
\<close>

fun append_records :: "'n element list \<Rightarrow> 'n store \<Rightarrow> (pyerr + unit) \<times> 'n store" where
  "append_records [] data = (Inr (), data)"
| "append_records (time # rest) data =
     (case map_of data ''TimeSteps'' of
        None \<Rightarrow> (Inl (KeyError ''TimeSteps''), data)
      | Some (PyList ts) \<Rightarrow>
          append_records rest (AList.update ''TimeSteps'' (PyList (ts @ [eattrib time])) data)
      | Some _ \<Rightarrow> (Inl AttributeError, data))"

text \<open>
  One turn of \<^verbatim>\<open>for prop in et\<close>. \<open>pyint\<close> is Python's \<^verbatim>\<open>int\<close> on text; its value \<open>n\<close>
  is not used afterwards, only its failure matters.
\<close>

definition read_prop ::
  "(string \<Rightarrow> pyerr + int) \<Rightarrow> 'n element \<Rightarrow> 'n store \<Rightarrow> (pyerr + unit) \<times> 'n store"
where
  "read_prop pyint prop data =
     (if etag prop = ''TimeSteps'' then
        let data1 = (if map_of data ''TimeSteps'' = None
                     then AList.update ''TimeSteps'' (PyList []) data else data)
        in (case map_of (eattrib prop) ''Len'' of
              None \<Rightarrow> (Inl (KeyError ''Len''), data1)
            | Some l \<Rightarrow>
                (case pyint l of
                   Inl e \<Rightarrow> (Inl e, data1)
                 | Inr n \<Rightarrow> append_records (echildren prop) data1))
      else (Inr (), AList.update (etag prop) (etext prop) data))"

fun read_props ::
  "(string \<Rightarrow> pyerr + int) \<Rightarrow> 'n element list \<Rightarrow> 'n store \<Rightarrow> (pyerr + unit) \<times> 'n store"
where
  "read_props pyint [] data = (Inr (), data)"
| "read_props pyint (prop # rest) data =
     (case read_prop pyint prop data of
        (Inl e, data') \<Rightarrow> (Inl e, data')
      | (Inr u, data') \<Rightarrow> read_props pyint rest data')"

definition TimeIncrements_read ::
  "(string \<Rightarrow> pyerr + int) \<Rightarrow> 'n element \<Rightarrow> 'n store \<Rightarrow> (pyerr + unit) \<times> 'n store"
where
  "TimeIncrements_read pyint et data = read_props pyint (echildren et) data"

subsection \<open>__write__\<close>

text \<open>The class attribute \<^verbatim>\<open>parameter_type\<close> of TimeIncrements; no entry of it is \<^verbatim>\<open>None\<close>.\<close>

datatype ptype = Pfloat | Pstr | Pint | Plist

definition parameter_type :: "(string \<times> ptype option) list" where
  "parameter_type =
     [(''Start'', Some Pfloat),
      (''Duration'', Some Pfloat),
      (''IncrementOption'', Some Pstr),
      (''IncrementCount'', Some Pint),
      (''InitialIncrementSize'', Some Pfloat),
      (''SaveMultiplesOf'', Some Pint),
      (''TimeSteps'', Some Plist)]"

text \<open>
  One turn of \<^verbatim>\<open>for tag,val in self.data.items()\<close>. In every branch the sub-element is
  created first, so it is there when a later statement raises. \<^verbatim>\<open>len\<close> of \<^verbatim>\<open>None\<close> or of
  a number raises TypeError. The empty text has length 0 and no character to loop over;
  a non-empty text under \<^verbatim>\<open>TimeSteps\<close> would put its characters where attribute
  dictionaries belong, which an \<^typ>\<open>'n element\<close> cannot hold, and is reported as the
  same failure. None of the values of this module has a \<^verbatim>\<open>__write__\<close> method of its own.
\<close>

definition write_item ::
  "string \<times> 'n pyval \<Rightarrow> 'n element \<Rightarrow> (pyerr + unit) \<times> 'n element"
where
  "write_item item et =
     (case item of (tag, val) \<Rightarrow>
        if tag = ''TimeSteps'' then
          (case val of
             PyList ts \<Rightarrow>
               (Inr (),
                SubElement et
                  (Element tag PyNone [(''Len'', str_nat (length ts))]
                     (map (\<lambda>time. Element ''TimeStep'' PyNone time []) ts)))
           | PyStr s \<Rightarrow>
               if s = [] then (Inr (), SubElement et (Element tag PyNone [(''Len'', str_nat 0)] []))
               else (Inl TypeError, SubElement et (Element tag PyNone [] []))
           | _ \<Rightarrow> (Inl TypeError, SubElement et (Element tag PyNone [] [])))
        else if map_of parameter_type tag = Some None then
          (Inl AttributeError, SubElement et (Element tag PyNone [] []))
        else (Inr (), SubElement et (Element tag val [] [])))"

fun write_items ::
  "(string \<times> 'n pyval) list \<Rightarrow> 'n element \<Rightarrow> (pyerr + unit) \<times> 'n element"
where
  "write_items [] et = (Inr (), et)"
| "write_items (item # rest) et =
     (case write_item item et of
        (Inl e, et') \<Rightarrow> (Inl e, et')
      | (Inr u, et') \<Rightarrow> write_items rest et')"

definition TimeIncrements_write :: "'n store \<Rightarrow> 'n element \<Rightarrow> (pyerr + unit) \<times> 'n element" where
  "TimeIncrements_write data et = write_items data et"

section \<open>Analysis\<close>

text \<open>
  The dictionary of an Analysis also holds references to its collaborators. A Geometry
  or a Context is an object of another module with a \<^verbatim>\<open>data\<close> dictionary of its own; it
  is represented by that dictionary. Besides \<^verbatim>\<open>self.data\<close>, an Analysis has the
  instance attribute \<^verbatim>\<open>self.context\<close>, which exists once \<^verbatim>\<open>setContext\<close> has assigned it.
\<close>

datatype 'n aval = AVal "'n pyval" | AObj "'n store"

record 'n analysis =
  adata :: "(string \<times> 'n aval) list"
  acontext :: "'n store option"

text \<open>\<^verbatim>\<open>setGeometry\<close>: two assignments; \<^verbatim>\<open>geom.data["ID"]\<close> raises KeyError between them.\<close>

definition setGeometry :: "'n store \<Rightarrow> 'n analysis \<Rightarrow> (pyerr + unit) \<times> 'n analysis" where
  "setGeometry geom a =
     (let a1 = a\<lparr>adata := AList.update ''Geometry'' (AObj geom) (adata a)\<rparr>
      in case map_of geom ''ID'' of
           None \<Rightarrow> (Inl (KeyError ''ID''), a1)
         | Some gid \<Rightarrow>
             (Inr (), a1\<lparr>adata := AList.update ''GeometryID'' (AVal gid) (adata a1)\<rparr>))"

definition setContext :: "'n store \<Rightarrow> 'n analysis \<Rightarrow> 'n analysis" where
  "setContext context a = a\<lparr>acontext := Some context\<rparr>"

text \<open>
  \<^verbatim>\<open>showProblem\<close>. Drawing the geometry (\<open>draw\<close>, a method of the Geometry class) and
  filling the regions with matplotlib (\<open>fill\<close>, which reads \<^verbatim>\<open>self["Geometry"]\<close> and the
  dictionary of the context) belong to other modules and are parameters. A value that is no object has neither a \<^verbatim>\<open>draw\<close> method nor a \<^verbatim>\<open>data\<close>
  attribute.
\<close>

datatype shown = NoGeometry | GeometryOnly | Materials

definition showProblem ::
  "('n store \<Rightarrow> pyerr + 'ax) \<Rightarrow>
   ('ax \<Rightarrow> (string \<times> 'n aval) list \<Rightarrow> 'n store \<Rightarrow> pyerr + unit) \<Rightarrow>
   'n analysis \<Rightarrow> pyerr + shown"
where
  "showProblem draw fill a =
     (case map_of (adata a) ''Geometry'' of
        None \<Rightarrow> Inr NoGeometry
      | Some g \<Rightarrow>
          (case (case g of AObj gd \<Rightarrow> draw gd | AVal v \<Rightarrow> Inl AttributeError) of
             Inl e \<Rightarrow> Inl e
           | Inr ax \<Rightarrow>
               (case map_of (adata a) ''Context'' of
                  None \<Rightarrow>
                    Inl (KeyError
                      ''Analysis not properly defined. 'Context' is not available in data.'')
                | Some (AVal v) \<Rightarrow> Inl AttributeError
                | Some (AObj context) \<Rightarrow>
                    if map_of context ''GeometryUsesMaterials'' = None then Inr GeometryOnly
                    else (case fill ax (adata a) context of
                            Inl e \<Rightarrow> Inl e
                          | Inr u \<Rightarrow> Inr Materials))))"

section \<open>Library functions and notions of the specification\<close>

text \<open>
  What \<^verbatim>\<open>np.argsort\<close> promises: a permutation of the positions that puts the values in
  ascending order. Its default sort is not stable, so nothing is promised about the
  order of positions that hold equal values. \<open>argsort_stable\<close> breaks ties by position
  and keeps the promise.
\<close>

definition argsort_ok :: "(('n::linorder) list \<Rightarrow> nat list) \<Rightarrow> bool" where
  "argsort_ok argsort =
     (\<forall>xs. mset (argsort xs) = mset [0..<length xs] \<and> sorted (map (\<lambda>i. xs ! i) (argsort xs)))"

definition argsort_stable :: "('n::linorder) list \<Rightarrow> nat list" where
  "argsort_stable xs = sort_key (\<lambda>i. xs ! i) [0..<length xs]"

subsection \<open>The default sort of np.argsort\<close>

text \<open>
  \<^verbatim>\<open>np.argsort(timesteps)\<close> names no \<^verbatim>\<open>kind\<close>, so NumPy sorts with its quicksort, the
  function \<^verbatim>\<open>aquicksort_\<close> of \<^verbatim>\<open>npysort/quicksort.cpp\<close> (the generic implementation; the
  vectorised kernels that some processors select are not stable either). It permutes
  the array \<^verbatim>\<open>tosort\<close> of positions, which starts as 0, 1, 2, ..., and compares the values
  \<^verbatim>\<open>v\<close> at these positions with a strict \<^verbatim>\<open>less\<close>. \<open>pl\<close>, \<open>pr\<close>, \<open>pi\<close>, \<open>pj\<close> are the
  pointers of the C code as positions in \<^verbatim>\<open>tosort\<close>.
\<close>

definition INTP_SWAP :: "nat list \<Rightarrow> nat \<Rightarrow> nat \<Rightarrow> nat list" where
  "INTP_SWAP tosort a b = tosort[a := tosort ! b, b := tosort ! a]"

text \<open>\<^verbatim>\<open>npy_get_msb\<close>: how often a number can be halved before it is 0, less one.\<close>

fun npy_get_msb :: "nat \<Rightarrow> nat" where
  "npy_get_msb n = (if n < 2 then 0 else Suc (npy_get_msb (n div 2)))"

declare npy_get_msb.simps [simp del]

text \<open>
  The two scans of the partition, \<^verbatim>\<open>do ++pi; while (less(v[*pi], vp))\<close> and
  \<^verbatim>\<open>do --pj; while (less(vp, v[*pj]))\<close>, from the position after the first step. In the C
  code a value that is not less than the pivot stops each scan inside the range.
\<close>

function scan_up :: "('n::linorder) list \<Rightarrow> nat list \<Rightarrow> 'n \<Rightarrow> nat \<Rightarrow> nat" where
  "scan_up v tosort vp i =
     (if i < length tosort \<and> v ! (tosort ! i) < vp then scan_up v tosort vp (Suc i) else i)"
  by pat_completeness auto
termination
  by (relation "measure (\<lambda>(v, tosort, vp, i). length tosort - i)") auto

declare scan_up.simps [simp del]

fun scan_down :: "('n::linorder) list \<Rightarrow> nat list \<Rightarrow> 'n \<Rightarrow> nat \<Rightarrow> nat" where
  "scan_down v tosort vp 0 = 0"
| "scan_down v tosort vp (Suc j) =
     (if vp < v ! (tosort ! Suc j) then scan_down v tosort vp j else Suc j)"

text \<open>
  The loop \<^verbatim>\<open>for (;;)\<close> of the partition: scan up, scan down, leave when the scans have
  met, swap otherwise. It returns the array and the final \<open>pi\<close>.
\<close>

function hoare ::
  "('n::linorder) list \<Rightarrow> nat list \<Rightarrow> 'n \<Rightarrow> nat \<Rightarrow> nat \<Rightarrow> nat list \<times> nat"
where
  "hoare v tosort vp pi pj =
     (let pi' = scan_up v tosort vp (Suc pi);
          pj' = scan_down v tosort vp (pj - 1)
      in if pi' \<ge> pj' then (tosort, pi')
         else hoare v (INTP_SWAP tosort pi' pj') vp pi' pj')"
  by pat_completeness auto
termination
proof (relation "measure (\<lambda>(v, tosort, vp, pi, pj). pj - pi)")
  show "wf (measure (\<lambda>(v, tosort, vp, pi, pj). pj - pi))"
    by simp
next
  fix v :: "('n::linorder) list" and tosort vp pi pj x xa
  assume scans: "x = scan_up v tosort vp (Suc pi)" "xa = scan_down v tosort vp (pj - 1)"
    and apart: "\<not> xa \<le> x"
  have up: "i \<le> scan_up w t p i" for w :: "'n list" and t p i
  proof (induction w t p i rule: scan_up.induct)
    case (1 w t p i)
    then show ?case
      by (subst scan_up.simps) (auto dest: Suc_leD)
  qed
  have down: "scan_down w t p j \<le> j" for w :: "'n list" and t p j
    by (induction j) (auto intro: le_SucI)
  from up [of "Suc pi" v tosort vp] down [of v tosort vp "pj - 1"] scans apart
  show "((v, INTP_SWAP tosort x xa, vp, x, xa), (v, tosort, vp, pi, pj))
        \<in> measure (\<lambda>(v, tosort, vp, pi, pj). pj - pi)"
    by simp
qed

declare hoare.simps [simp del]

text \<open>The three conditional swaps that put the median of left, middle and right at \<open>pm\<close>.\<close>

definition median3 ::
  "('n::linorder) list \<Rightarrow> nat list \<Rightarrow> nat \<Rightarrow> nat \<Rightarrow> nat \<Rightarrow> nat list"
where
  "median3 v tosort pl pm pr =
     (let t1 = (if v ! (tosort ! pm) < v ! (tosort ! pl) then INTP_SWAP tosort pm pl else tosort);
          t2 = (if v ! (t1 ! pr) < v ! (t1 ! pm) then INTP_SWAP t1 pr pm else t1)
      in if v ! (t2 ! pm) < v ! (t2 ! pl) then INTP_SWAP t2 pm pl else t2)"

text \<open>
  One partition of the range from \<open>pl\<close> to \<open>pr\<close>: the pivot goes to \<open>pr - 1\<close>, the scans
  start at \<open>pl\<close> and \<open>pr - 1\<close>, and the pivot is swapped to the final \<open>pi\<close>.
\<close>

definition partition_step ::
  "('n::linorder) list \<Rightarrow> nat list \<Rightarrow> nat \<Rightarrow> nat \<Rightarrow> nat list \<times> nat"
where
  "partition_step v tosort pl pr =
     (let pm = pl + (pr - pl) div 2;
          t1 = median3 v tosort pl pm pr;
          vp = v ! (t1 ! pm);
          t2 = INTP_SWAP t1 pm (pr - 1)
      in case hoare v t2 vp pl (pr - 1) of
           (t3, pi) \<Rightarrow> (INTP_SWAP t3 pi (pr - 1), pi))"

text \<open>
  The insertion sort of a short range: \<^verbatim>\<open>while (pj > pl && less(vp, v[*pk])) *pj-- = *pk--\<close>
  moves the positions with a greater value one place up, then \<^verbatim>\<open>*pj = vi\<close>; once for
  every \<open>pi\<close> from \<open>pl + 1\<close> to \<open>pr\<close>.
\<close>

fun shift_right ::
  "('n::linorder) list \<Rightarrow> nat list \<Rightarrow> 'n \<Rightarrow> nat \<Rightarrow> nat \<Rightarrow> nat list \<times> nat"
where
  "shift_right v tosort vp pl 0 = (tosort, 0)"
| "shift_right v tosort vp pl (Suc pk) =
     (if Suc pk > pl \<and> vp < v ! (tosort ! pk)
      then shift_right v (tosort[Suc pk := tosort ! pk]) vp pl pk
      else (tosort, Suc pk))"

fun insertion_sort :: "('n::linorder) list \<Rightarrow> nat list \<Rightarrow> nat \<Rightarrow> nat list \<Rightarrow> nat list" where
  "insertion_sort v tosort pl [] = tosort"
| "insertion_sort v tosort pl (pi # rest) =
     (let vi = tosort ! pi in
      case shift_right v tosort (v ! vi) pl pi of
        (t1, pj) \<Rightarrow> insertion_sort v (t1[pj := vi]) pl rest)"

text \<open>
  The sort of one range. While \<^verbatim>\<open>pr - pl > SMALL_QUICKSORT\<close>, which is 16, the range is
  partitioned, the larger part is pushed on the stack and the smaller one is continued;
  a range of at most 17 positions is sorted by insertion. The parts are disjoint, so the
  stack is the recursion here. Every partition takes one from \<open>cdepth\<close>. A range that is
  popped with a negative depth is left to NumPy's heapsort, which this model does not
  follow: the result is \<open>None\<close> exactly when a partition is due at depth 0.
\<close>

fun aquicksort_range ::
  "nat \<Rightarrow> ('n::linorder) list \<Rightarrow> nat list \<Rightarrow> nat \<Rightarrow> nat \<Rightarrow> nat list option"
where
  "aquicksort_range 0 v tosort pl pr =
     (if pr - pl > 16 then None
      else Some (insertion_sort v tosort pl [Suc pl..<Suc pr]))"
| "aquicksort_range (Suc cdepth) v tosort pl pr =
     (if pr - pl > 16 then
        (case partition_step v tosort pl pr of
           (t1, pi) \<Rightarrow>
             if pi - pl < pr - pi then
               (case aquicksort_range cdepth v t1 pl (pi - 1) of
                  None \<Rightarrow> None
                | Some t2 \<Rightarrow> aquicksort_range cdepth v t2 (Suc pi) pr)
             else
               (case aquicksort_range cdepth v t1 (Suc pi) pr of
                  None \<Rightarrow> None
                | Some t2 \<Rightarrow> aquicksort_range cdepth v t2 pl (pi - 1)))
      else Some (insertion_sort v tosort pl [Suc pl..<Suc pr]))"

text \<open>The whole array, with \<^verbatim>\<open>cdepth = npy_get_msb(num) * 2\<close>.\<close>

definition aquicksort :: "('n::linorder) list \<Rightarrow> nat list option" where
  "aquicksort v =
     aquicksort_range (npy_get_msb (length v) * 2) v [0..<length v] 0 (length v - 1)"

text \<open>
  \<^verbatim>\<open>np.argsort\<close> as far as the quicksort goes; it has no positions to return where the
  heapsort would take over.
\<close>

definition np_argsort :: "('n::linorder) list \<Rightarrow> nat list" where
  "np_argsort v = (case aquicksort v of None \<Rightarrow> [] | Some tosort \<Rightarrow> tosort)"

text \<open>
  An instance of \<^verbatim>\<open>int\<close> and \<^verbatim>\<open>float\<close> on text for the examples: it reads the decimal
  integer literals that \<^verbatim>\<open>str\<close> prints for an integer. The examples apply it to such
  texts only.
\<close>

definition digit_val :: "char \<Rightarrow> nat option" where
  "digit_val c = (let k = of_char c in if (48::nat) \<le> k \<and> k \<le> 57 then Some (k - 48) else None)"

fun digits_val :: "string \<Rightarrow> nat \<Rightarrow> nat option" where
  "digits_val [] acc = Some acc"
| "digits_val (c # cs) acc =
     (case digit_val c of None \<Rightarrow> None | Some d \<Rightarrow> digits_val cs (10 * acc + d))"

definition dec_text :: "string \<Rightarrow> pyerr + int" where
  "dec_text s =
     (case s of
        [] \<Rightarrow> Inl (ValueError s)
      | c # cs \<Rightarrow>
          if c = CHR ''-'' then
            (case cs of
               [] \<Rightarrow> Inl (ValueError s)
             | _ # _ \<Rightarrow> (case digits_val cs 0 of None \<Rightarrow> Inl (ValueError s) | Some n \<Rightarrow> Inr (- int n)))
          else (case digits_val s 0 of None \<Rightarrow> Inl (ValueError s) | Some n \<Rightarrow> Inr (int n)))"

text \<open>
  The records \<^verbatim>\<open>setTimeSteps\<close> builds from the permuted times \<open>ts\<close> and flags \<open>sv\<close>, as
  one list: the first against \<open>start\<close>, every later one against its predecessor.
\<close>

definition schedule :: "('n::minus \<Rightarrow> string) \<Rightarrow> 'n \<Rightarrow> 'n list \<Rightarrow> bool list \<Rightarrow> nat \<Rightarrow> attrs list" where
  "schedule pystr start ts sv n =
     map (\<lambda>i. mk_step pystr (ts ! i - (if i = 0 then start else ts ! (i - 1))) (ts ! i) (sv ! i))
       [0..<n]"

text \<open>The numeric coercion of a text field of a record: \<^verbatim>\<open>float(x[key])\<close>.\<close>

definition coerced :: "(string \<Rightarrow> pyerr + 'f) \<Rightarrow> string \<Rightarrow> attrs \<Rightarrow> pyerr + 'f" where
  "coerced pyfloat key x =
     (case map_of x key of None \<Rightarrow> Inl (KeyError key) | Some t \<Rightarrow> pyfloat t)"

text \<open>
  \<^verbatim>\<open>read\<close> accepts a child when it raises nothing on it: a \<^verbatim>\<open>TimeSteps\<close> child needs a
  \<^verbatim>\<open>Len\<close> attribute that \<^verbatim>\<open>int\<close> can read, any other child is taken as it is.
\<close>

definition accepted :: "(string \<Rightarrow> pyerr + int) \<Rightarrow> 'n element \<Rightarrow> bool" where
  "accepted pyint prop =
     (if etag prop = ''TimeSteps'' then
        (case map_of (eattrib prop) ''Len'' of
           None \<Rightarrow> False
         | Some l \<Rightarrow> (case pyint l of Inl e \<Rightarrow> False | Inr n \<Rightarrow> True))
      else True)"

text \<open>
  The record list a dictionary holds (none when the key is unset), and the dictionaries
  on which the \<^verbatim>\<open>append\<close> of \<^verbatim>\<open>read\<close> cannot fail: \<^verbatim>\<open>TimeSteps\<close> unset or holding a list.
\<close>

definition ts_of :: "'n store \<Rightarrow> attrs list" where
  "ts_of data = (case map_of data ''TimeSteps'' of Some (PyList ts) \<Rightarrow> ts | _ \<Rightarrow> [])"

definition ts_ok :: "'n store \<Rightarrow> bool" where
  "ts_ok data =
     (case map_of data ''TimeSteps'' of None \<Rightarrow> True | Some (PyList ts) \<Rightarrow> True | Some _ \<Rightarrow> False)"

text \<open>What one accepted child does to the dictionary.\<close>

definition read_store :: "'n element \<Rightarrow> 'n store \<Rightarrow> 'n store" where
  "read_store prop data =
     (if etag prop = ''TimeSteps''
      then AList.update ''TimeSteps'' (PyList (ts_of data @ map eattrib (echildren prop))) data
      else AList.update (etag prop) (etext prop) data)"



text \<open>The child that \<^verbatim>\<open>__write__\<close> emits for one item of a dictionary that \<^verbatim>\<open>read\<close> built.\<close>

definition item_element :: "string \<times> 'n pyval \<Rightarrow> 'n element" where
  "item_element item =
     (case item of
        (tag, PyList ts) \<Rightarrow>
          if tag = ''TimeSteps''
          then Element tag PyNone [(''Len'', str_nat (length ts))]
                 (map (\<lambda>time. Element ''TimeStep'' PyNone time []) ts)
          else Element tag (PyList ts) [] []
      | (tag, val) \<Rightarrow> Element tag val [] [])"

text \<open>An item whose value the \<^verbatim>\<open>TimeSteps\<close> branch of \<^verbatim>\<open>__write__\<close> can take: a list.\<close>

definition list_item :: "string \<times> 'n pyval \<Rightarrow> bool" where
  "list_item item =
     (case item of (tag, val) \<Rightarrow>
        if tag = ''TimeSteps'' then (case val of PyList ts \<Rightarrow> True | _ \<Rightarrow> False) else True)"

section \<open>Decimal text is read back\<close>

lemma digit_val_digit_char: "d < 10 \<Longrightarrow> digit_val (digit_char d) = Some d"
  by (simp add: digit_val_def digit_char_def Let_def)

lemma digits_val_append:
  "digits_val (xs @ ys) acc =
     (case digits_val xs acc of None \<Rightarrow> None | Some a \<Rightarrow> digits_val ys a)"
  by (induction xs arbitrary: acc) (auto split: option.splits)

lemma digits_val_str_nat: "digits_val (str_nat n) 0 = Some n"
proof (induction n rule: str_nat.induct)
  case (1 n)
  show ?case
  proof (cases "n < 10")
    case True
    then show ?thesis
      by (subst str_nat.simps) (simp add: digit_val_digit_char)
  next
    case False
    then have "digits_val (str_nat (n div 10)) 0 = Some (n div 10)"
      using "1" by simp
    with False show ?thesis
      by (subst str_nat.simps) (simp add: digits_val_append digit_val_digit_char)
  qed
qed

lemma str_nat_not_Nil: "str_nat n \<noteq> []"
  by (subst str_nat.simps) simp

lemma digit_char_not_minus: "d < 10 \<Longrightarrow> digit_char d \<noteq> CHR ''-''"
proof
  assume d: "d < 10" and eq: "digit_char d = CHR ''-''"
  have "(of_char (digit_char d) :: nat) = 48 + d"
    using d by (simp add: digit_char_def)
  with eq show False by simp
qed

lemma hd_str_nat: "hd (str_nat n) \<noteq> CHR ''-''"
proof (induction n rule: str_nat.induct)
  case (1 n)
  show ?case
  proof (cases "n < 10")
    case True
    then show ?thesis
      by (subst str_nat.simps) (simp add: digit_char_not_minus)
  next
    case False
    then show ?thesis
      using "1" by (subst str_nat.simps) (simp add: str_nat_not_Nil)
  qed
qed

lemma dec_text_str_nat: "dec_text (str_nat n) = Inr (int n)"
proof (cases "str_nat n")
  case Nil
  then show ?thesis by (simp add: str_nat_not_Nil)
next
  case (Cons c cs)
  with hd_str_nat [of n] have c: "c \<noteq> CHR ''-''" by simp
  have "digits_val (c # cs) 0 = Some n"
    using digits_val_str_nat [of n] Cons by simp
  with c show ?thesis
    unfolding Cons dec_text_def by (simp del: digits_val.simps)
qed

lemma dec_text_str_int: "dec_text (str_int i) = Inr i"
proof (cases "i < 0")
  case True
  obtain c cs where cs: "str_nat (nat (- i)) = c # cs"
    using str_nat_not_Nil [of "nat (- i)"] by (cases "str_nat (nat (- i))") auto
  have "digits_val (c # cs) 0 = Some (nat (- i))"
    using digits_val_str_nat [of "nat (- i)"] cs by simp
  with True show ?thesis
    unfolding str_int_def dec_text_def cs by (simp del: digits_val.simps)
next
  case False
  then show ?thesis
    by (simp add: str_int_def dec_text_str_nat)
qed

section \<open>Building the schedule\<close>

lemma argsort_ok_set: "argsort_ok argsort \<Longrightarrow> set (argsort xs) = {0..<length xs}"
  unfolding argsort_ok_def by (metis mset_eq_setD set_upt)

lemma argsort_ok_length: "argsort_ok argsort \<Longrightarrow> length (argsort xs) = length xs"
  unfolding argsort_ok_def by (metis mset_eq_length length_upt diff_zero)

lemma take_indices_argsort:
  assumes "argsort_ok argsort" and "length ys = length xs"
  shows "take_indices ys (argsort xs) = Inr (map (\<lambda>i. ys ! i) (argsort xs))"
  using assms by (simp add: take_indices_def list_all_iff argsort_ok_set)

lemma argsort_ok_sort:
  assumes "argsort_ok argsort"
  shows "map (\<lambda>i. xs ! i) (argsort xs) = sort xs"
proof -
  have "mset (map (\<lambda>i. xs ! i) (argsort xs)) = mset (map (\<lambda>i. xs ! i) [0..<length xs])"
    using assms by (simp add: argsort_ok_def)
  also have "map (\<lambda>i. xs ! i) [0..<length xs] = xs"
    by (rule map_nth)
  finally have "mset (map (\<lambda>i. xs ! i) (argsort xs)) = mset xs" .
  moreover have "sorted (map (\<lambda>i. xs ! i) (argsort xs))"
    using assms by (simp add: argsort_ok_def)
  ultimately show ?thesis
    by (metis properties_for_sort)
qed

lemma steps_loop_Inr:
  "steps_loop pystr ts sv is res = Inr r \<longleftrightarrow>
     list_all (\<lambda>i. i < length ts \<and> i < length sv) is \<and>
     r = res @ map (\<lambda>i. mk_step pystr (ts ! i - ts ! (i - 1)) (ts ! i) (sv ! i)) is"
  by (induction "is" arbitrary: res) auto

lemma schedule_unfold:
  "0 < n \<Longrightarrow> schedule pystr start ts sv n =
     mk_step pystr (ts ! 0 - start) (ts ! 0) (sv ! 0) #
     map (\<lambda>i. mk_step pystr (ts ! i - ts ! (i - 1)) (ts ! i) (sv ! i)) [1..<n]"
  by (simp add: schedule_def upt_conv_Cons)

lemma setTimeSteps_Inr:
  assumes "setTimeSteps argsort pystr timesteps saved data = (Inr (), data')"
  shows "\<exists>ts sv start.
           length timesteps = length saved \<and> timesteps \<noteq> [] \<and>
           take_indices timesteps (argsort timesteps) = Inr ts \<and>
           take_indices saved (argsort timesteps) = Inr sv \<and>
           length timesteps \<le> length ts \<and> length timesteps \<le> length sv \<and>
           get_start data = PyNum start \<and>
           data' = AList.update ''TimeSteps''
                     (PyList (schedule pystr start ts sv (length timesteps)))
                     (AList.update ''IncrementCount'' (PyStr (str_nat (length timesteps))) data)"
proof -
  from assms have len: "length timesteps = length saved"
    by (auto simp: setTimeSteps_def split: if_splits)
  from assms len obtain ts sv t0 trest s0 srest step0 res where
    ts: "take_indices timesteps (argsort timesteps) = Inr ts" and
    sv: "take_indices saved (argsort timesteps) = Inr sv" and
    tsC: "ts = t0 # trest" and svC: "sv = s0 # srest" and
    sub: "py_sub t0 (get_start data) = Inr step0" and
    loop: "steps_loop pystr ts sv [1..<length timesteps] [mk_step pystr step0 t0 s0] = Inr res" and
    d': "data' = AList.update ''TimeSteps'' (PyList res)
           (AList.update ''IncrementCount'' (PyStr (str_nat (length timesteps))) data)"
    by (auto simp: setTimeSteps_def Let_def split: sum.splits list.splits)
  from sub obtain start where start: "get_start data = PyNum start" and step0: "step0 = t0 - start"
    by (cases "get_start data") auto
  have ne: "timesteps \<noteq> []"
  proof
    assume "timesteps = []"
    with ts tsC show False
      by (auto simp: take_indices_def split: if_splits)
  qed
  from loop have all: "list_all (\<lambda>i. i < length ts \<and> i < length sv) [1..<length timesteps]"
    and res: "res = mk_step pystr step0 t0 s0 #
        map (\<lambda>i. mk_step pystr (ts ! i - ts ! (i - 1)) (ts ! i) (sv ! i)) [1..<length timesteps]"
    by (simp_all add: steps_loop_Inr)
  have le: "length timesteps \<le> length ts \<and> length timesteps \<le> length sv"
  proof (cases "length timesteps \<le> 1")
    case True
    with tsC svC show ?thesis by simp
  next
    case False
    then have "length timesteps - 1 \<in> set [1..<length timesteps]" by auto
    with all have "length timesteps - 1 < length ts \<and> length timesteps - 1 < length sv"
      unfolding list_all_iff by blast
    with False show ?thesis by linarith
  qed
  have "res = schedule pystr start ts sv (length timesteps)"
    using ne res step0 tsC svC by (simp add: schedule_unfold)
  with len ne ts sv le start d' show ?thesis by blast
qed

lemma argsort_stable_ok: "argsort_ok argsort_stable"
  by (simp add: argsort_ok_def argsort_stable_def)

lemma coerced_mk_step:
  "coerced pyfloat ''Step'' (mk_step pystr s e b) = pyfloat (pystr s)"
  "coerced pyfloat ''ElapsedTime'' (mk_step pystr s e b) = pyfloat (pystr e)"
  by (simp_all add: coerced_def mk_step_def)

lemma map_of_mk_step:
  "map_of (mk_step pystr s e b) ''ElapsedTime'' = Some (pystr e)"
  "map_of (mk_step pystr s e b) ''Save'' = (if b then Some ''true'' else None)"
  by (simp_all add: mk_step_def)

lemma map_of_update_TimeSteps:
  "map_of (AList.update ''TimeSteps'' v (AList.update ''IncrementCount'' w data)) ''TimeSteps'' = Some v"
  "map_of (AList.update ''TimeSteps'' v (AList.update ''IncrementCount'' w data)) ''Start'' = map_of data ''Start''"
  "map_of (AList.update ''TimeSteps'' v (AList.update ''IncrementCount'' w data)) ''IncrementCount'' = Some w"
  by (simp_all add: update_conv')

lemma schedule_length: "length (schedule pystr start ts sv n) = n"
  by (simp add: schedule_def)

lemma schedule_nth:
  "i < n \<Longrightarrow> schedule pystr start ts sv n ! i =
     mk_step pystr (ts ! i - (if i = 0 then start else ts ! (i - 1))) (ts ! i) (sv ! i)"
  by (simp add: schedule_def)

text \<open>
  Claim C3. After a successful \<^verbatim>\<open>setTimeSteps\<close>, the \<^verbatim>\<open>Step\<close> of every record after the
  first is its \<^verbatim>\<open>ElapsedTime\<close> minus the \<^verbatim>\<open>ElapsedTime\<close> of the record before it, and the
  \<^verbatim>\<open>Step\<close> of the first record is its \<^verbatim>\<open>ElapsedTime\<close> minus \<^verbatim>\<open>Start\<close>, which is 0 when the
  key is unset and the stored number otherwise; the fields are compared after coercion
  by \<^verbatim>\<open>float\<close>, which reads back what \<^verbatim>\<open>str\<close> printed.
\<close>

theorem step_delta_law:
  assumes "setTimeSteps argsort pystr timesteps saved data = (Inr (), data')"
    and "\<And>x. pyfloat (pystr x) = Inr x"
  shows "\<exists>recs start.
           map_of data' ''TimeSteps'' = Some (PyList recs) \<and>
           length recs = length timesteps \<and> recs \<noteq> [] \<and>
           (case map_of data ''Start'' of None \<Rightarrow> start = 0 | Some v \<Rightarrow> v = PyNum start) \<and>
           map_of data' ''Start'' = map_of data ''Start'' \<and>
           (\<exists>e. coerced pyfloat ''ElapsedTime'' (recs ! 0) = Inr e \<and>
                coerced pyfloat ''Step'' (recs ! 0) = Inr (e - start)) \<and>
           (\<forall>i. 0 < i \<and> i < length recs \<longrightarrow>
              (\<exists>e p. coerced pyfloat ''ElapsedTime'' (recs ! i) = Inr e \<and>
                     coerced pyfloat ''ElapsedTime'' (recs ! (i - 1)) = Inr p \<and>
                     coerced pyfloat ''Step'' (recs ! i) = Inr (e - p)))"
proof -
  from setTimeSteps_Inr [OF assms(1)] obtain ts sv start where
    ne: "timesteps \<noteq> []" and start: "get_start data = PyNum start" and
    d': "data' = AList.update ''TimeSteps''
                  (PyList (schedule pystr start ts sv (length timesteps)))
                  (AList.update ''IncrementCount'' (PyStr (str_nat (length timesteps))) data)"
    by blast
  let ?recs = "schedule pystr start ts sv (length timesteps)"
  have 1: "map_of data' ''TimeSteps'' = Some (PyList ?recs)"
    and 2: "map_of data' ''Start'' = map_of data ''Start''"
    unfolding d' by (simp_all add: map_of_update_TimeSteps)
  have 3: "length ?recs = length timesteps" "?recs \<noteq> []"
    using ne by (auto simp: schedule_def)
  have 4: "case map_of data ''Start'' of None \<Rightarrow> start = 0 | Some v \<Rightarrow> v = PyNum start"
    using start by (auto simp: get_start_def split: option.splits)
  have 5: "coerced pyfloat ''ElapsedTime'' (?recs ! 0) = Inr (ts ! 0) \<and>
           coerced pyfloat ''Step'' (?recs ! 0) = Inr (ts ! 0 - start)"
    using ne by (simp add: schedule_nth coerced_mk_step assms(2))
  have 6: "coerced pyfloat ''ElapsedTime'' (?recs ! i) = Inr (ts ! i) \<and>
           coerced pyfloat ''ElapsedTime'' (?recs ! (i - 1)) = Inr (ts ! (i - 1)) \<and>
           coerced pyfloat ''Step'' (?recs ! i) = Inr (ts ! i - ts ! (i - 1))"
    if "0 < i \<and> i < length ?recs" for i
    using that
    by (simp add: schedule_length schedule_nth coerced_mk_step assms(2) less_imp_diff_less)
  from 1 2 3 4 5 6 show ?thesis by blast
qed

theorem step_delta_law_witness:
  "setTimeSteps argsort_stable str_int [5, 2, 10] [False, True, True] [(''Start'', PyNum 1)] =
     (Inr (),
      [(''Start'', PyNum 1), (''IncrementCount'', PyStr ''3''),
       (''TimeSteps'', PyList
          [[(''Step'', ''1''), (''ElapsedTime'', ''2''), (''Save'', ''true'')],
           [(''Step'', ''3''), (''ElapsedTime'', ''5'')],
           [(''Step'', ''5''), (''ElapsedTime'', ''10''), (''Save'', ''true'')]])]) \<and>
   (\<forall>x. dec_text (str_int x) = Inr x) \<and>
   (\<exists>recs start.
      map_of [(''Start'', PyNum (1::int)), (''IncrementCount'', PyStr ''3''),
       (''TimeSteps'', PyList
          [[(''Step'', ''1''), (''ElapsedTime'', ''2''), (''Save'', ''true'')],
           [(''Step'', ''3''), (''ElapsedTime'', ''5'')],
           [(''Step'', ''5''), (''ElapsedTime'', ''10''), (''Save'', ''true'')]])] ''TimeSteps'' = Some (PyList recs) \<and>
      length recs = 3 \<and> start = 1 \<and>
      coerced dec_text ''Step'' (recs ! 0) = Inr (2 - start) \<and>
      coerced dec_text ''Step'' (recs ! 1) = Inr (5 - 2) \<and>
      coerced dec_text ''Step'' (recs ! 2) = Inr (10 - 5))"
proof -
  have h1: "setTimeSteps argsort_stable str_int [5, 2, 10] [False, True, True] [(''Start'', PyNum 1)] =
     (Inr (),
      [(''Start'', PyNum 1), (''IncrementCount'', PyStr ''3''),
       (''TimeSteps'', PyList
          [[(''Step'', ''1''), (''ElapsedTime'', ''2''), (''Save'', ''true'')],
           [(''Step'', ''3''), (''ElapsedTime'', ''5'')],
           [(''Step'', ''5''), (''ElapsedTime'', ''10''), (''Save'', ''true'')]])])"
    by code_simp
  have h2: "\<And>x. dec_text (str_int x) = Inr x"
    by (rule dec_text_str_int)
  have h3: "coerced dec_text ''Step'' [(''Step'', ''1''), (''ElapsedTime'', ''2''), (''Save'', ''true'')] = Inr 1"
        "coerced dec_text ''Step'' [(''Step'', ''3''), (''ElapsedTime'', ''5'')] = Inr 3"
        "coerced dec_text ''Step'' [(''Step'', ''5''), (''ElapsedTime'', ''10''), (''Save'', ''true'')] = Inr 5"
    by code_simp+
  from step_delta_law [OF h1 h2] h1 h2 h3 show ?thesis
    by simp
qed

lemma steps_loop_total:
  assumes "n \<le> length ts" and "n \<le> length sv"
  shows "steps_loop pystr ts sv [1..<n] res =
           Inr (res @ map (\<lambda>i. mk_step pystr (ts ! i - ts ! (i - 1)) (ts ! i) (sv ! i)) [1..<n])"
  using assms by (simp add: steps_loop_Inr list_all_iff)

lemma setTimeSteps_ok:
  assumes ok: "argsort_ok argsort" and len: "length timesteps = length saved"
    and ne: "timesteps \<noteq> []" and start: "get_start data = PyNum start"
  shows "setTimeSteps argsort pystr timesteps saved data =
           (Inr (),
            AList.update ''TimeSteps''
              (PyList (schedule pystr start (sort timesteps)
                         (map (\<lambda>i. saved ! i) (argsort timesteps)) (length timesteps)))
              (AList.update ''IncrementCount'' (PyStr (str_nat (length timesteps))) data))"
proof -
  let ?ts = "sort timesteps" and ?sv = "map (\<lambda>i. saved ! i) (argsort timesteps)"
  have ts: "take_indices timesteps (argsort timesteps) = Inr ?ts"
    using take_indices_argsort [OF ok refl, of timesteps] by (simp add: argsort_ok_sort [OF ok])
  have sv: "take_indices saved (argsort timesteps) = Inr ?sv"
    using take_indices_argsort [OF ok len [symmetric]] .
  have lts: "length ?ts = length timesteps" by simp
  have lsv: "length ?sv = length timesteps" by (simp add: argsort_ok_length [OF ok])
  obtain t0 trest where tsC: "?ts = t0 # trest"
    using ne lts by (cases ?ts) auto
  obtain s0 srest where svC: "?sv = s0 # srest"
    using ne lsv by (cases ?sv) auto
  have loop: "steps_loop pystr ?ts ?sv [1..<length timesteps] [mk_step pystr (t0 - start) t0 s0] =
          Inr (schedule pystr start ?ts ?sv (length timesteps))"
    using ne tsC svC lts lsv
    by (subst steps_loop_total) (simp_all add: schedule_unfold del: sort_key_simps)
  show ?thesis
    unfolding setTimeSteps_def Let_def ts sv
    using len start loop by (simp add: tsC svC del: sort_key_simps)
qed

lemma all_times_map:
  assumes "\<And>x. pyfloat (pystr x) = Inr x"
  shows "all_times pyfloat (map (\<lambda>i. mk_step pystr (f i) (g i) (h i)) is) = Inr (map g is)"
  by (induction "is") (simp_all add: map_of_mk_step assms)

lemma all_times_schedule:
  assumes "\<And>x. pyfloat (pystr x) = Inr x" and "n = length ts"
  shows "all_times pyfloat (schedule pystr start ts sv n) = Inr ts"
  unfolding schedule_def by (simp add: all_times_map [OF assms(1)] assms(2) map_nth)

text \<open>
  Claim C4, amended. For sequences \<open>timesteps\<close> and \<open>saved\<close> of equal length that are not
  empty, with \<^verbatim>\<open>Start\<close> unset or stored as a number, \<^verbatim>\<open>setTimeSteps\<close> succeeds and the
  following \<^verbatim>\<open>getTimeStep\<close> returns the elements of \<open>timesteps\<close> in ascending order, one
  for each input element.
\<close>

theorem getTimeStep_sorted:
  assumes "argsort_ok argsort" and "length timesteps = length saved" and "timesteps \<noteq> []"
    and "map_of data ''Start'' = None \<or> (\<exists>s. map_of data ''Start'' = Some (PyNum s))"
    and "\<And>x. pyfloat (pystr x) = Inr x"
  shows "\<exists>data'. setTimeSteps argsort pystr timesteps saved data = (Inr (), data') \<and>
                 getTimeStep pyfloat data' = Inr (sort timesteps)"
proof -
  from assms(4) obtain start where start: "get_start data = PyNum start"
    by (auto simp: get_start_def)
  have "getTimeStep pyfloat
          (AList.update ''TimeSteps''
              (PyList (schedule pystr start (sort timesteps)
                         (map (\<lambda>i. saved ! i) (argsort timesteps)) (length timesteps)))
              (AList.update ''IncrementCount'' (PyStr (str_nat (length timesteps))) data)) =
        Inr (sort timesteps)"
    by (simp add: getTimeStep_def iter_TimeSteps_def map_of_update_TimeSteps
        all_times_schedule [OF assms(5)])
  with setTimeSteps_ok [OF assms(1-3) start] show ?thesis by blast
qed

theorem getTimeStep_sorted_witness:
  "argsort_ok (argsort_stable :: int list \<Rightarrow> nat list) \<and>
   length [5, 2, 10 :: int] = length [False, True, True] \<and> [5, 2, 10 :: int] \<noteq> [] \<and>
   map_of ([] :: int store) ''Start'' = None \<and>
   (\<forall>x. dec_text (str_int x) = Inr x) \<and>
   (\<exists>data'. setTimeSteps argsort_stable str_int [5, 2, 10] [False, True, True] [] = (Inr (), data') \<and>
            getTimeStep dec_text data' = Inr [2, 5, 10])"
proof -
  have h: "map_of ([] :: int store) ''Start'' = None \<or>
           (\<exists>s. map_of ([] :: int store) ''Start'' = Some (PyNum s))"
    by simp
  have "sort [5, 2, 10 :: int] = [2, 5, 10]" by simp
  with getTimeStep_sorted [of argsort_stable "[5, 2, 10 :: int]" "[False, True, True]" "[]"
      dec_text str_int, OF argsort_stable_ok _ _ h dec_text_str_int]
  show ?thesis
    by (simp add: argsort_stable_ok dec_text_str_int)
qed

text \<open>
  Claim C4 as stated covers the empty sequences. There \<^verbatim>\<open>timesteps_[0]\<close> raises
  IndexError, nothing is stored, and \<^verbatim>\<open>getTimeStep\<close> on the new container does not
  return the empty list. A \<^verbatim>\<open>Start\<close> that \<^verbatim>\<open>read\<close> stored is a text, and subtracting it
  raises TypeError.
\<close>

theorem getTimeStep_empty_counterexample:
  "setTimeSteps argsort_stable str_int ([] :: int list) [] [] = (Inl IndexError, []) \<and>
   getTimeStep dec_text (snd (setTimeSteps argsort_stable str_int ([] :: int list) [] [])) \<noteq>
     Inr (sort []) \<and>
   setTimeSteps argsort_stable str_int [1 :: int] [True] [(''Start'', PyStr ''0'')] =
     (Inl TypeError, [(''Start'', PyStr ''0'')])"
proof -
  have "setTimeSteps argsort_stable str_int ([] :: int list) [] [] = (Inl IndexError, [])"
    by (simp add: setTimeSteps_def argsort_stable_def take_indices_def)
  moreover have "getTimeStep dec_text ([] :: int store) \<noteq> Inr (sort [])"
    by (simp add: getTimeStep_def iter_TimeSteps_def)
  moreover have "setTimeSteps argsort_stable str_int [1 :: int] [True] [(''Start'', PyStr ''0'')] =
     (Inl TypeError, [(''Start'', PyStr ''0'')])"
    by code_simp
  ultimately show ?thesis by simp
qed

text \<open>
  Claim C5. When \<open>timesteps\<close> and \<open>saved\<close> differ in length, \<^verbatim>\<open>setTimeSteps\<close> raises the
  size-mismatch ValueError and the whole dictionary, any former \<^verbatim>\<open>TimeSteps\<close> and
  \<^verbatim>\<open>IncrementCount\<close> included, is what it was before the call.
\<close>

theorem size_mismatch_rejected:
  "length timesteps \<noteq> length saved \<Longrightarrow>
   setTimeSteps argsort pystr timesteps saved data =
     (Inl (ValueError ''timestep and saved parameter must be of the same size''), data)"
  by (simp add: setTimeSteps_def)

theorem size_mismatch_rejected_witness:
  "length [1, 2 :: int] \<noteq> length [True] \<and>
   setTimeSteps argsort_stable str_int [1, 2] [True]
     [(''IncrementCount'', PyStr ''1''),
      (''TimeSteps'', PyList [[(''Step'', ''7''), (''ElapsedTime'', ''7'')]])] =
     (Inl (ValueError ''timestep and saved parameter must be of the same size''),
      [(''IncrementCount'', PyStr ''1''),
       (''TimeSteps'', PyList [[(''Step'', ''7''), (''ElapsedTime'', ''7'')]])])"
  using size_mismatch_rejected [of "[1, 2 :: int]" "[True]" argsort_stable str_int
      "[(''IncrementCount'', PyStr ''1''),
        (''TimeSteps'', PyList [[(''Step'', ''7''), (''ElapsedTime'', ''7'')]])]"]
  by simp

lemma take_indices_Inr:
  "take_indices xs indices = Inr ys \<Longrightarrow>
     ys = map (\<lambda>i. xs ! i) indices \<and> (\<forall>i<length indices. indices ! i < length xs)"
  by (auto simp: take_indices_def list_all_length split: if_splits)

text \<open>
  Claim C6, amended. \<^verbatim>\<open>setTimeSteps\<close> applies one permutation of the positions, the one
  \<^verbatim>\<open>np.argsort\<close> returns for \<open>timesteps\<close>, to both sequences: the times of the records
  ascend, and record \<open>i\<close> has the time and the \<^verbatim>\<open>Save\<close> flag of the input position
  \<open>argsort timesteps ! i\<close>. Records of equal time come in the order in which argsort
  returns their positions.
\<close>

theorem same_permutation:
  assumes "argsort_ok argsort"
    and "setTimeSteps argsort pystr timesteps saved data = (Inr (), data')"
  shows "\<exists>recs.
           map_of data' ''TimeSteps'' = Some (PyList recs) \<and>
           length recs = length timesteps \<and>
           mset (argsort timesteps) = mset [0..<length timesteps] \<and>
           sorted (map (\<lambda>i. timesteps ! i) (argsort timesteps)) \<and>
           (\<forall>i<length timesteps.
              map_of (recs ! i) ''ElapsedTime'' = Some (pystr (timesteps ! (argsort timesteps ! i))) \<and>
              map_of (recs ! i) ''Save'' =
                (if saved ! (argsort timesteps ! i) then Some ''true'' else None))"
proof -
  from setTimeSteps_Inr [OF assms(2)] obtain ts sv start where
    ts: "take_indices timesteps (argsort timesteps) = Inr ts" and
    sv: "take_indices saved (argsort timesteps) = Inr sv" and
    d': "data' = AList.update ''TimeSteps''
                  (PyList (schedule pystr start ts sv (length timesteps)))
                  (AList.update ''IncrementCount'' (PyStr (str_nat (length timesteps))) data)"
    by blast
  let ?p = "argsort timesteps"
  let ?recs = "schedule pystr start ts sv (length timesteps)"
  have lp: "length ?p = length timesteps"
    by (rule argsort_ok_length [OF assms(1)])
  have tsv: "ts = map (\<lambda>i. timesteps ! i) ?p" "sv = map (\<lambda>i. saved ! i) ?p"
    using take_indices_Inr [OF ts] take_indices_Inr [OF sv] by simp_all
  have 1: "map_of data' ''TimeSteps'' = Some (PyList ?recs)"
    unfolding d' by (simp add: map_of_update_TimeSteps)
  have 2: "mset ?p = mset [0..<length timesteps]" "sorted (map (\<lambda>i. timesteps ! i) ?p)"
    using assms(1) by (simp_all add: argsort_ok_def)
  have 3: "map_of (?recs ! i) ''ElapsedTime'' = Some (pystr (timesteps ! (?p ! i))) \<and>
           map_of (?recs ! i) ''Save'' = (if saved ! (?p ! i) then Some ''true'' else None)"
    if "i < length timesteps" for i
    using that lp by (simp add: schedule_nth map_of_mk_step tsv)
  from 1 2 3 show ?thesis
    by (simp add: schedule_length)
qed

theorem same_permutation_witness:
  "argsort_ok (argsort_stable :: int list \<Rightarrow> nat list) \<and>
   setTimeSteps argsort_stable str_int [5, 2, 2] [False, True, False] [] =
     (Inr (),
      [(''IncrementCount'', PyStr ''3''),
       (''TimeSteps'', PyList
          [[(''Step'', ''2''), (''ElapsedTime'', ''2''), (''Save'', ''true'')],
           [(''Step'', ''0''), (''ElapsedTime'', ''2'')],
           [(''Step'', ''3''), (''ElapsedTime'', ''5'')]])]) \<and>
   (\<exists>recs.
      map_of [(''IncrementCount'', PyStr ''3''),
       (''TimeSteps'', PyList
          [[(''Step'', ''2''), (''ElapsedTime'', ''2''), (''Save'', ''true'')],
           [(''Step'', ''0''), (''ElapsedTime'', ''2'')],
           [(''Step'', ''3''), (''ElapsedTime'', ''5'')]])] ''TimeSteps'' = Some (PyList recs) \<and>
      length recs = length [5, 2, 2 :: int] \<and>
      map_of (recs ! 0) ''ElapsedTime'' = Some (str_int ([5, 2, 2] ! (argsort_stable [5, 2, 2 :: int] ! 0))))"
proof -
  have h: "setTimeSteps argsort_stable str_int [5, 2, 2] [False, True, False] [] =
     (Inr (),
      [(''IncrementCount'', PyStr ''3''),
       (''TimeSteps'', PyList
          [[(''Step'', ''2''), (''ElapsedTime'', ''2''), (''Save'', ''true'')],
           [(''Step'', ''0''), (''ElapsedTime'', ''2'')],
           [(''Step'', ''3''), (''ElapsedTime'', ''5'')]])])"
    by code_simp
  from same_permutation [OF argsort_stable_ok h] h argsort_stable_ok show ?thesis
    by auto
qed

text \<open>
  Claim C6 as stated asks for the input order among equal times. Eighteen equal times
  are one more than the insertion sort takes: the partition swaps the positions 1 and
  15, 2 and 14, up to 7 and 9, and the two parts are then left as they are. With only
  the second input saved, the record that carries \<^verbatim>\<open>Save\<close> is the sixteenth of the
  schedule, behind fourteen unsaved inputs that followed it.
\<close>

theorem stable_order_counterexample:
  "aquicksort (replicate 18 (1::int)) =
     Some [0, 15, 14, 13, 12, 11, 10, 9, 8, 7, 6, 5, 4, 3, 2, 1, 16, 17] \<and>
   setTimeSteps np_argsort str_int (replicate 18 1) (False # True # replicate 16 False) [] =
     (Inr (),
      [(''IncrementCount'', PyStr ''18''),
       (''TimeSteps'', PyList
          ([(''Step'', ''1''), (''ElapsedTime'', ''1'')] #
           replicate 14 [(''Step'', ''0''), (''ElapsedTime'', ''1'')] @
           [(''Step'', ''0''), (''ElapsedTime'', ''1''), (''Save'', ''true'')] #
           replicate 2 [(''Step'', ''0''), (''ElapsedTime'', ''1'')]))])"
proof -
  have "aquicksort (replicate 18 (1::int)) =
     Some [0, 15, 14, 13, 12, 11, 10, 9, 8, 7, 6, 5, 4, 3, 2, 1, 16, 17]"
    by code_simp
  moreover have "setTimeSteps np_argsort str_int (replicate 18 1)
       (False # True # replicate 16 False) [] =
     (Inr (),
      [(''IncrementCount'', PyStr ''18''),
       (''TimeSteps'', PyList
          ([(''Step'', ''1''), (''ElapsedTime'', ''1'')] #
           replicate 14 [(''Step'', ''0''), (''ElapsedTime'', ''1'')] @
           [(''Step'', ''0''), (''ElapsedTime'', ''1''), (''Save'', ''true'')] #
           replicate 2 [(''Step'', ''0''), (''ElapsedTime'', ''1'')]))])"
    by code_simp
  ultimately show ?thesis by (rule conjI)
qed

lemma argsort_scenario:
  assumes "argsort_ok argsort"
  shows "argsort [5, 2, 10 :: int] = [1, 0, 2]"
proof -
  let ?xs = "[5, 2, 10 :: int]"
  have len: "length (argsort ?xs) = 3"
    using argsort_ok_length [OF assms, of ?xs] by simp
  then obtain a b c where p: "argsort ?xs = [a, b, c]"
    by (auto simp: length_Suc_conv numeral_3_eq_3)
  have "i < 3" if "i \<in> set (argsort ?xs)" for i
    using that argsort_ok_set [OF assms, of ?xs] by simp
  with p have lt: "a < 3" "b < 3" "c < 3" by simp_all
  have "map (\<lambda>i. ?xs ! i) (argsort ?xs) = [2, 5, 10]"
    using argsort_ok_sort [OF assms, of ?xs] by simp
  with p have v: "?xs ! a = 2" "?xs ! b = 5" "?xs ! c = 10" by simp_all
  have "a = 1"
    using lt(1) v(1) by (cases a rule: nat.exhaust; cases "a - 1"; cases "a - 2") auto
  moreover have "b = 0"
    using lt(2) v(2) by (cases b; cases "b - 1"; cases "b - 2") auto
  moreover have "c = 2"
    using lt(3) v(3) by (cases c; cases "c - 1"; cases "c - 2") auto
  ultimately show ?thesis using p by simp
qed

text \<open>
  Claim C1. With \<^verbatim>\<open>Start\<close> unset, \<^verbatim>\<open>setTimeSteps([5, 2, 10], [False, True, True])\<close> builds
  the three records of the scenario and sets \<^verbatim>\<open>IncrementCount\<close> to 3, and \<^verbatim>\<open>getTimeStep\<close>
  returns 2, 5, 10. \<^verbatim>\<open>getSavedTimeStep\<close> does not return 2, 10: the second record has no
  \<^verbatim>\<open>Save\<close> key and \<^verbatim>\<open>x["Save"]\<close> raises KeyError.
\<close>

theorem scenario_getSavedTimeStep_raises:
  assumes "argsort_ok argsort"
  shows "setTimeSteps argsort str_int [5, 2, 10] [False, True, True] [] =
     (Inr (),
      [(''IncrementCount'', PyStr ''3''),
       (''TimeSteps'', PyList
          [[(''Step'', ''2''), (''ElapsedTime'', ''2''), (''Save'', ''true'')],
           [(''Step'', ''3''), (''ElapsedTime'', ''5'')],
           [(''Step'', ''5''), (''ElapsedTime'', ''10''), (''Save'', ''true'')]])]) \<and>
   getTimeStep dec_text (snd (setTimeSteps argsort str_int [5, 2, 10] [False, True, True] [])) =
     Inr [2, 5, 10] \<and>
   getSavedTimeStep dec_text (snd (setTimeSteps argsort str_int [5, 2, 10] [False, True, True] [])) =
     Inl (KeyError ''Save'')"
proof -
  have "setTimeSteps argsort str_int [5, 2, 10] [False, True, True] [] =
        setTimeSteps (\<lambda>xs. [1, 0, 2]) str_int [5, 2, 10] [False, True, True] []"
    by (simp add: setTimeSteps_def argsort_scenario [OF assms])
  also have "\<dots> =
     (Inr (),
      [(''IncrementCount'', PyStr ''3''),
       (''TimeSteps'', PyList
          [[(''Step'', ''2''), (''ElapsedTime'', ''2''), (''Save'', ''true'')],
           [(''Step'', ''3''), (''ElapsedTime'', ''5'')],
           [(''Step'', ''5''), (''ElapsedTime'', ''10''), (''Save'', ''true'')]])])"
    by code_simp
  finally have run: "setTimeSteps argsort str_int [5, 2, 10] [False, True, True] [] =
     (Inr (),
      [(''IncrementCount'', PyStr ''3''),
       (''TimeSteps'', PyList
          [[(''Step'', ''2''), (''ElapsedTime'', ''2''), (''Save'', ''true'')],
           [(''Step'', ''3''), (''ElapsedTime'', ''5'')],
           [(''Step'', ''5''), (''ElapsedTime'', ''10''), (''Save'', ''true'')]])])" .
  have all: "getTimeStep dec_text
      [(''IncrementCount'', PyStr ''3'' :: int pyval),
       (''TimeSteps'', PyList
          [[(''Step'', ''2''), (''ElapsedTime'', ''2''), (''Save'', ''true'')],
           [(''Step'', ''3''), (''ElapsedTime'', ''5'')],
           [(''Step'', ''5''), (''ElapsedTime'', ''10''), (''Save'', ''true'')]])] =
      Inr [2, 5, 10]"
    by code_simp
  have saved: "getSavedTimeStep dec_text
      [(''IncrementCount'', PyStr ''3'' :: int pyval),
       (''TimeSteps'', PyList
          [[(''Step'', ''2''), (''ElapsedTime'', ''2''), (''Save'', ''true'')],
           [(''Step'', ''3''), (''ElapsedTime'', ''5'')],
           [(''Step'', ''5''), (''ElapsedTime'', ''10''), (''Save'', ''true'')]])] =
      Inl (KeyError ''Save'')"
    by code_simp
  from run all saved show ?thesis by simp
qed

theorem scenario_getSavedTimeStep_raises_witness:
  "argsort_ok (argsort_stable :: int list \<Rightarrow> nat list) \<and>
   getSavedTimeStep dec_text
     (snd (setTimeSteps argsort_stable str_int [5, 2, 10] [False, True, True] [])) =
     Inl (KeyError ''Save'')"
  using scenario_getSavedTimeStep_raises [OF argsort_stable_ok] argsort_stable_ok
  by blast

text \<open>
  Claim C2. \<^verbatim>\<open>getSavedTimeStep\<close> is to return the times of the records whose \<^verbatim>\<open>Save\<close> is
  present and true. On a record without the \<^verbatim>\<open>Save\<close> key it raises KeyError, and a record
  whose \<^verbatim>\<open>Save\<close> is the text \<^verbatim>\<open>false\<close> is returned, the text being non-empty.
\<close>

theorem getSavedTimeStep_defects:
  "getSavedTimeStep pyfloat
     [(''TimeSteps'', PyList [[(''Step'', ''2''), (''ElapsedTime'', ''2'')]])] =
     Inl (KeyError ''Save'') \<and>
   getSavedTimeStep dec_text
     [(''TimeSteps'', PyList [[(''Step'', ''2''), (''ElapsedTime'', ''2''), (''Save'', ''false'')]])] =
     Inr [2]"
proof -
  have "getSavedTimeStep pyfloat
     [(''TimeSteps'', PyList [[(''Step'', ''2''), (''ElapsedTime'', ''2'')]])] =
     Inl (KeyError ''Save'')"
    by (simp add: getSavedTimeStep_def iter_TimeSteps_def)
  moreover have "dec_text ''2'' = Inr 2"
    by code_simp
  then have "getSavedTimeStep dec_text
     [(''TimeSteps'', PyList [[(''Step'', ''2''), (''ElapsedTime'', ''2''), (''Save'', ''false'')]])] =
     Inr [2]"
    by (simp add: getSavedTimeStep_def iter_TimeSteps_def)
  ultimately show ?thesis by simp
qed
section \<open>Reading a document\<close>

lemma append_records_list:
  "map_of data ''TimeSteps'' = Some (PyList old) \<Longrightarrow>
   append_records cs data =
     (Inr (), AList.update ''TimeSteps'' (PyList (old @ map eattrib cs)) data)"
proof (induction cs arbitrary: data old)
  case Nil
  then show ?case by (simp add: update_triv)
next
  case (Cons c cs)
  have "map_of (AList.update ''TimeSteps'' (PyList (old @ [eattrib c])) data) ''TimeSteps'' =
        Some (PyList (old @ [eattrib c]))"
    by (simp add: update_conv')
  from Cons.IH [OF this] Cons.prems show ?case
    by simp
qed

lemma read_prop_accepted:
  assumes "ts_ok data" and "accepted pyint prop"
  shows "read_prop pyint prop data = (Inr (), read_store prop data)"
proof (cases "etag prop = ''TimeSteps''")
  case False
  then show ?thesis by (simp add: read_prop_def read_store_def)
next
  case True
  from assms(2) True obtain l n where
    l: "map_of (eattrib prop) ''Len'' = Some l" and n: "pyint l = Inr n"
    by (auto simp: accepted_def split: option.splits sum.splits)
  show ?thesis
  proof (cases "map_of data ''TimeSteps''")
    case None
    have "map_of (AList.update ''TimeSteps'' (PyList []) data) ''TimeSteps'' = Some (PyList [])"
      by (simp add: update_conv')
    from append_records_list [OF this] None True l n show ?thesis
      by (simp add: read_prop_def read_store_def ts_of_def)
  next
    case (Some v)
    with assms(1) obtain old where old: "map_of data ''TimeSteps'' = Some (PyList old)"
      by (cases v) (auto simp: ts_ok_def)
    from append_records_list [OF this] old True l n show ?thesis
      by (simp add: read_prop_def read_store_def ts_of_def)
  qed
qed

lemma read_prop_Inr_accepted:
  assumes "read_prop pyint prop data = (Inr (), data')"
  shows "accepted pyint prop"
  using assms
  by (auto simp: read_prop_def accepted_def Let_def split: if_splits option.splits sum.splits)

lemma ts_ok_read_store: "ts_ok data \<Longrightarrow> ts_ok (read_store prop data)"
  by (auto simp: ts_ok_def read_store_def update_conv' split: option.splits pyval.splits)

lemma read_props_accepted:
  assumes "ts_ok data" and "list_all (accepted pyint) props"
  shows "read_props pyint props data = (Inr (), foldl (\<lambda>d p. read_store p d) data props)"
  using assms
proof (induction props arbitrary: data)
  case Nil
  then show ?case by simp
next
  case (Cons p ps)
  then show ?case
    by (simp add: read_prop_accepted ts_ok_read_store)
qed

lemma read_props_Inr_accepted:
  assumes "ts_ok data" and "read_props pyint props data = (Inr (), data')"
  shows "list_all (accepted pyint) props"
  using assms
proof (induction props arbitrary: data)
  case Nil
  then show ?case by simp
next
  case (Cons p ps)
  from Cons.prems(2) obtain d where d: "read_prop pyint p data = (Inr (), d)"
    and rest: "read_props pyint ps d = (Inr (), data')"
    by (auto split: prod.splits sum.splits)
  have acc: "accepted pyint p" by (rule read_prop_Inr_accepted [OF d])
  with Cons.prems(1) d have "d = read_store p data"
    by (simp add: read_prop_accepted)
  with Cons.prems(1) have "ts_ok d" by (simp add: ts_ok_read_store)
  from Cons.IH [OF this rest] acc show ?case by simp
qed





lemma ts_ok_foldl: "ts_ok data \<Longrightarrow> ts_ok (foldl (\<lambda>d p. read_store p d) data props)"
  by (induction props arbitrary: data) (simp_all add: ts_ok_read_store)







section \<open>Writing and reading back\<close>

lemma no_None_type: "map_of parameter_type tag \<noteq> Some None"
  by (simp add: parameter_type_def)

lemma write_item_element:
  assumes "list_item item"
  shows "write_item item et = (Inr (), SubElement et (item_element item))"
proof (cases item)
  case (Pair tag val)
  show ?thesis
  proof (cases "tag = ''TimeSteps''")
    case True
    with assms Pair obtain ts where "val = PyList ts"
      by (cases val) (auto simp: list_item_def)
    with True Pair show ?thesis
      by (simp add: write_item_def item_element_def)
  next
    case False
    with Pair show ?thesis
      by (cases val) (simp_all add: write_item_def item_element_def no_None_type)
  qed
qed

lemma write_items_elements:
  assumes "list_all list_item d"
  shows "write_items d et =
           (Inr (), Element (etag et) (etext et) (eattrib et)
                      (echildren et @ map item_element d))"
  using assms
proof (induction d arbitrary: et)
  case Nil
  then show ?case by simp
next
  case (Cons item d)
  then show ?case
    by (simp add: write_item_element SubElement_def)
qed

lemma update_fresh: "k \<notin> fst ` set al \<Longrightarrow> AList.update k v al = al @ [(k, v)]"
  by (induction al) auto

lemma read_store_item_element:
  assumes "list_item item" and "fst item \<notin> fst ` set d"
  shows "read_store (item_element item) d = d @ [item]"
proof (cases item)
  case (Pair tag val)
  show ?thesis
  proof (cases "tag = ''TimeSteps''")
    case True
    with assms(1) Pair obtain ts where val: "val = PyList ts"
      by (cases val) (auto simp: list_item_def)
    from assms(2) Pair True have "map_of d ''TimeSteps'' = None"
      by (simp add: map_of_eq_None_iff)
    then have "ts_of d = []" by (simp add: ts_of_def)
    with assms(2) Pair True val show ?thesis
      by (simp add: read_store_def item_element_def update_fresh comp_def)
  next
    case False
    with assms(2) Pair show ?thesis
      by (cases val) (simp_all add: read_store_def item_element_def update_fresh)
  qed
qed

lemma foldl_read_store_items:
  assumes "list_all list_item d2" and "distinct (map fst (d1 @ d2))"
  shows "foldl (\<lambda>d p. read_store p d) d1 (map item_element d2) = d1 @ d2"
  using assms
proof (induction d2 arbitrary: d1)
  case Nil
  then show ?case by simp
next
  case (Cons item d2)
  from Cons.prems have fresh: "fst item \<notin> fst ` set d1" and li: "list_item item"
    by auto
  have "distinct (map fst ((d1 @ [item]) @ d2))"
    using Cons.prems(2) by simp
  with Cons.IH [of "d1 @ [item]"] Cons.prems(1)
  have "foldl (\<lambda>d p. read_store p d) (d1 @ [item]) (map item_element d2) = (d1 @ [item]) @ d2"
    by simp
  then show ?case
    by (simp add: read_store_item_element [OF li fresh])
qed

lemma accepted_item_element:
  assumes "\<forall>n. \<exists>v. pyint (str_nat n) = Inr v" and "list_item item"
  shows "accepted pyint (item_element item)"
proof (cases item)
  case (Pair tag val)
  show ?thesis
  proof (cases val)
    case (PyList ts)
    from assms(1) obtain v where "pyint (str_nat (length ts)) = Inr v" by blast
    with Pair PyList show ?thesis
      by (simp add: accepted_def item_element_def)
  qed (use assms(2) in \<open>auto simp: Pair accepted_def item_element_def list_item_def
        split: if_splits\<close>)
qed

lemma distinct_read_store:
  "distinct (map fst d) \<Longrightarrow> distinct (map fst (read_store p d))"
  by (simp add: read_store_def distinct_update)

lemma distinct_foldl_read_store:
  "distinct (map fst d) \<Longrightarrow> distinct (map fst (foldl (\<lambda>d p. read_store p d) d props))"
  by (induction props arbitrary: d) (simp_all add: distinct_read_store)

lemma ts_ok_list_items:
  assumes "ts_ok d" and "distinct (map fst d)"
  shows "list_all list_item d"
proof -
  have "list_item item" if "item \<in> set d" for item
  proof (cases item)
    case (Pair tag val)
    show ?thesis
    proof (cases "tag = ''TimeSteps''")
      case True
      with that Pair assms(2) have "map_of d ''TimeSteps'' = Some val" by simp
      with assms(1) True Pair show ?thesis
        by (cases val) (simp_all add: ts_ok_def list_item_def)
    next
      case False
      with Pair show ?thesis by (simp add: list_item_def)
    qed
  qed
  then show ?thesis by (simp add: list_all_iff)
qed

text \<open>
  Claim C7. When \<^verbatim>\<open>read\<close> accepts a node and fills an empty container from it, \<^verbatim>\<open>__write__\<close>
  of that container to a fresh node succeeds, and \<^verbatim>\<open>read\<close> of the written node into a new
  empty container succeeds with the same dictionary: the same keys, the same texts and
  the same \<^verbatim>\<open>TimeSteps\<close> records, in the same order. \<^verbatim>\<open>int\<close> is assumed to read the decimal
  text of a length.
\<close>

theorem read_write_read:
  assumes "TimeIncrements_read pyint et [] = (Inr (), data)"
    and "\<forall>n. \<exists>v. pyint (str_nat n) = Inr v"
  shows "\<exists>et'. TimeIncrements_write data (Element tg PyNone [] []) = (Inr (), et') \<and>
               TimeIncrements_read pyint et' [] = (Inr (), data)"
proof -
  have ok0: "ts_ok ([] :: 'a store)" by (simp add: ts_ok_def)
  from assms(1) have r: "read_props pyint (echildren et) [] = (Inr (), data)"
    by (simp add: TimeIncrements_read_def)
  have acc: "list_all (accepted pyint) (echildren et)"
    by (rule read_props_Inr_accepted [OF ok0 r])
  have data: "data = foldl (\<lambda>d p. read_store p d) [] (echildren et)"
    using r read_props_accepted [OF ok0 acc] by simp
  have ok: "ts_ok data" unfolding data by (rule ts_ok_foldl [OF ok0])
  have dist: "distinct (map fst data)"
    unfolding data by (rule distinct_foldl_read_store) simp
  have items: "list_all list_item data"
    by (rule ts_ok_list_items [OF ok dist])
  let ?et' = "Element tg PyNone [] (map item_element data)"
  have w: "TimeIncrements_write data (Element tg PyNone [] []) = (Inr (), ?et')"
    using write_items_elements [OF items] by (simp add: TimeIncrements_write_def)
  have acc': "list_all (accepted pyint) (map item_element data)"
    using items by (simp add: list_all_iff accepted_item_element [OF assms(2)])
  have "read_props pyint (map item_element data) [] =
          (Inr (), foldl (\<lambda>d p. read_store p d) [] (map item_element data))"
    by (rule read_props_accepted [OF ok0 acc'])
  also have "foldl (\<lambda>d p. read_store p d) [] (map item_element data) = [] @ data"
    by (rule foldl_read_store_items [OF items]) (simp add: dist)
  finally have "TimeIncrements_read pyint ?et' [] = (Inr (), data)"
    by (simp add: TimeIncrements_read_def)
  with w show ?thesis by blast
qed

theorem read_write_read_witness:
  "TimeIncrements_read dec_text
     (Element ''TimeIncrements'' (PyNone :: int pyval) []
        [Element ''Duration'' (PyStr ''86400'') [] [],
         Element ''TimeSteps'' PyNone [(''Len'', ''2'')]
           [Element ''TimeStep'' PyNone
              [(''Step'', ''2''), (''ElapsedTime'', ''2''), (''Save'', ''true'')] [],
            Element ''TimeStep'' PyNone [(''Step'', ''3''), (''ElapsedTime'', ''5'')] []],
         Element ''IncrementCount'' (PyStr ''2'') [] []]) [] =
     (Inr (),
      [(''Duration'', PyStr ''86400''),
       (''TimeSteps'', PyList
          [[(''Step'', ''2''), (''ElapsedTime'', ''2''), (''Save'', ''true'')],
           [(''Step'', ''3''), (''ElapsedTime'', ''5'')]]),
       (''IncrementCount'', PyStr ''2'')]) \<and>
   (\<forall>n. \<exists>v. dec_text (str_nat n) = Inr v) \<and>
   (\<exists>et'.
      TimeIncrements_write
        [(''Duration'', PyStr ''86400''),
         (''TimeSteps'', PyList
            [[(''Step'', ''2''), (''ElapsedTime'', ''2''), (''Save'', ''true'')],
             [(''Step'', ''3''), (''ElapsedTime'', ''5'')]]),
         (''IncrementCount'', PyStr ''2'' :: int pyval)]
        (Element ''TimeIncrements'' PyNone [] []) = (Inr (), et') \<and>
      TimeIncrements_read dec_text et' [] =
        (Inr (),
         [(''Duration'', PyStr ''86400''),
          (''TimeSteps'', PyList
             [[(''Step'', ''2''), (''ElapsedTime'', ''2''), (''Save'', ''true'')],
              [(''Step'', ''3''), (''ElapsedTime'', ''5'')]]),
          (''IncrementCount'', PyStr ''2'')]))"
proof -
  have h1: "TimeIncrements_read dec_text
     (Element ''TimeIncrements'' (PyNone :: int pyval) []
        [Element ''Duration'' (PyStr ''86400'') [] [],
         Element ''TimeSteps'' PyNone [(''Len'', ''2'')]
           [Element ''TimeStep'' PyNone
              [(''Step'', ''2''), (''ElapsedTime'', ''2''), (''Save'', ''true'')] [],
            Element ''TimeStep'' PyNone [(''Step'', ''3''), (''ElapsedTime'', ''5'')] []],
         Element ''IncrementCount'' (PyStr ''2'') [] []]) [] =
     (Inr (),
      [(''Duration'', PyStr ''86400''),
       (''TimeSteps'', PyList
          [[(''Step'', ''2''), (''ElapsedTime'', ''2''), (''Save'', ''true'')],
           [(''Step'', ''3''), (''ElapsedTime'', ''5'')]]),
       (''IncrementCount'', PyStr ''2'')])"
    by code_simp
  have h2: "\<forall>n. \<exists>v. dec_text (str_nat n) = Inr v"
    by (simp add: dec_text_str_nat)
  from read_write_read [OF h1 h2, of "''TimeIncrements''"] h1 h2 show ?thesis
    by (intro conjI) blast+
qed

section \<open>The references of an Analysis\<close>

text \<open>
  Claim C8. \<^verbatim>\<open>setGeometry\<close> is to copy the identity of the geometry into the \<^verbatim>\<open>GeometryId\<close>
  scalar of the schema. It never changes that entry: it stores the geometry under
  \<^verbatim>\<open>Geometry\<close> and its identity under the other key \<^verbatim>\<open>GeometryID\<close>. On an analysis with
  \<^verbatim>\<open>GeometryId\<close> 1 and a geometry of identity 2, \<^verbatim>\<open>GeometryId\<close> is still 1 afterwards.
\<close>

theorem setGeometry_writes_GeometryID:
  "map_of (adata (snd (setGeometry geom a))) ''GeometryId'' = map_of (adata a) ''GeometryId'' \<and>
   setGeometry [(''ID'', PyStr ''2'')]
     \<lparr>adata = [(''ID'', AVal (PyStr ''1'')), (''GeometryId'', AVal (PyStr ''1''))],
      acontext = None\<rparr> =
     (Inr (),
      \<lparr>adata = [(''ID'', AVal (PyStr ''1'')), (''GeometryId'', AVal (PyStr ''1'')),
                (''Geometry'', AObj [(''ID'', PyStr ''2'')]),
                (''GeometryID'', AVal (PyStr ''2''))],
       acontext = None\<rparr>)"
  by (simp add: setGeometry_def Let_def update_conv' split: option.splits)

text \<open>
  Claim C9. \<^verbatim>\<open>showProblem\<close> is to raise the KeyError that names \<^verbatim>\<open>Context\<close> exactly when no
  context was set. \<^verbatim>\<open>setContext\<close> assigns the attribute \<^verbatim>\<open>self.context\<close> while \<^verbatim>\<open>showProblem\<close>
  looks for the key \<^verbatim>\<open>Context\<close> of \<^verbatim>\<open>self.data\<close>, so \<^verbatim>\<open>setContext\<close> changes nothing of what
  \<^verbatim>\<open>showProblem\<close> does: with a geometry set and drawn, the KeyError is raised after
  \<^verbatim>\<open>setContext\<close> too.
\<close>

theorem setContext_not_seen_by_showProblem:
  "showProblem draw fill (setContext context a) = showProblem draw fill a \<and>
   showProblem (\<lambda>g. Inr ()) fill
     (setContext context
        (snd (setGeometry [(''ID'', PyStr ''1'')] \<lparr>adata = [], acontext = None\<rparr>))) =
     Inl (KeyError ''Analysis not properly defined. 'Context' is not available in data.'')"
proof -
  have same: "adata (setContext context b) = adata b" for b :: "'a analysis"
    by (simp add: setContext_def)
  have "showProblem draw fill (setContext context a) = showProblem draw fill a"
    unfolding showProblem_def same ..
  moreover have "showProblem (\<lambda>g. Inr ()) fill
     (setContext context
        (snd (setGeometry [(''ID'', PyStr ''1'')] \<lparr>adata = [], acontext = None\<rparr>))) =
     Inl (KeyError ''Analysis not properly defined. 'Context' is not available in data.'')"
    unfolding showProblem_def same by (simp add: setGeometry_def)
  ultimately show ?thesis by simp
qed

end
